theory Spec2Isabelle
  imports Main
begin

section \<open>The selectable list widget of \<open>tui/widgets.py\<close>\<close>

text \<open>
  The development embeds the class \<open>ItemControl\<close> of
  \<open>src/qontract_development_cli/tui/widgets.py\<close> and its two subclasses
  \<open>EnvList\<close> and \<open>ProfileList\<close>. A widget object is a record; every method takes the
  object and returns it updated. A method that raises returns \<open>Inl\<close> of the exception
  together with the object as it was when the exception left the method, since the
  Python object keeps the mutations made before the raise.

  The host framework (Textual) is outside the repository. What the widget reads from it
  is a field of the record (\<open>parent\<close>, \<open>container_height\<close>); what the widget asks of it
  is appended to a trace (\<open>emitted\<close>, \<open>refreshes\<close>, \<open>scrolls\<close>). A scroll request
  is only recorded: what the container makes of it reaches the widget as a later reading
  of the viewport. The handlers run inside the application, where \<open>event.stop()\<close> marks
  the key event and \<open>log(...)\<close> writes to the developer console; of \<open>log\<close> the model
  keeps the evaluation of its argument, which can raise.
\<close>

subsection \<open>Data\<close>

datatype py_error = AttributeError | TypeError | ZeroDivisionError | IndexError

text \<open>The three classes that share the code of \<open>ItemControl\<close>.\<close>

datatype widget_class = ItemControl | EnvList | ProfileList

text \<open>
  \<open>self.ItemSelected(self, item)\<close>: the nested message class is looked up on the
  object, so the message is tagged with the class of its sender.
\<close>

datatype message = ItemSelected widget_class string

text \<open>\<open>parent.scroll_down(animate=...)\<close> and \<open>parent.scroll_up(animate=...)\<close>.\<close>

datatype scroll_request = ScrollDown bool | ScrollUp bool

text \<open>
  An instance attribute exists only once it has been assigned: \<open>__init__\<close> creates
  \<open>_items\<close> and does not create \<open>_selected_index\<close>.
\<close>

datatype 'a attribute = Missing | Stored 'a

text \<open>
  What \<open>key_down\<close> and \<open>key_up\<close> read from the enclosing container:
  \<open>parent.content_size.height\<close> and \<open>parent.scroll_offset.y\<close>.
\<close>

record viewport =
  content_height :: int
  scroll_y :: int

text \<open>
  The fields \<open>u_items\<close> and \<open>u_selected_index\<close> are the attributes \<open>_items\<close> and
  \<open>_selected_index\<close> (an Isabelle name cannot begin with an underscore).
  \<open>container_height\<close> is \<open>self.container_size.height\<close>.
\<close>

record item_control =
  cls :: widget_class
  u_items :: "string list"
  u_selected_index :: "int option attribute"
  parent :: "viewport option"
  container_height :: int
  emitted :: "message list"
  refreshes :: nat
  scrolls :: "scroll_request list"

type_synonym result = "(py_error \<times> item_control) + item_control"

text \<open>The widget object after a call, whether the call returned or raised.\<close>

definition state_of :: "result \<Rightarrow> item_control" where
  "state_of r = (case r of Inl (e, st) \<Rightarrow> st | Inr st \<Rightarrow> st)"

definition raised :: "result \<Rightarrow> py_error option" where
  "raised r = (case r of Inl (e, st) \<Rightarrow> Some e | Inr st \<Rightarrow> None)"

subsection \<open>Library functions the widget calls\<close>

text \<open>
  \<open>textual.geometry.clamp(value, minimum, maximum)\<close>: the bounds are put in order,
  then the value is cut to them. The widget calls it with the bounds \<open>0\<close> and
  \<open>len(self._items) - 1\<close> of a non-empty list, which are in order; there the result
  is \<open>max minimum (min value maximum)\<close> (lemma \<open>clamp_ordered\<close>).
\<close>

definition clamp :: "int \<Rightarrow> int \<Rightarrow> int \<Rightarrow> int" where
  "clamp v minimum maximum =
     (let lo = (if minimum > maximum then maximum else minimum);
          hi = (if minimum > maximum then minimum else maximum)
      in if v < lo then lo else if v > hi then hi else v)"

text \<open>
  Subscription \<open>xs[i]\<close> of a Python list: indices \<open>0 .. len - 1\<close> read from
  the front, indices \<open>-len .. -1\<close> read from the back, any other raises.
\<close>

definition getitem :: "'a list \<Rightarrow> int \<Rightarrow> py_error + 'a" where
  "getitem xs i =
     (if 0 \<le> i \<and> i < int (length xs) then Inr (xs ! nat i)
      else if - int (length xs) \<le> i \<and> i < 0 then Inr (xs ! nat (int (length xs) + i))
      else Inl IndexError)"

text \<open>\<open>self.emit_no_wait(message)\<close> and \<open>self.refresh(layout=True)\<close>.\<close>

definition emit_no_wait :: "message \<Rightarrow> item_control \<Rightarrow> item_control" where
  "emit_no_wait m st = st\<lparr>emitted := emitted st @ [m]\<rparr>"

definition refresh :: "item_control \<Rightarrow> item_control" where
  "refresh st = st\<lparr>refreshes := Suc (refreshes st)\<rparr>"

subsection \<open>The methods of \<open>ItemControl\<close>\<close>

text \<open>
  \<open>__init__\<close>: the item list is created empty. A widget that has just been
  constructed has no parent yet.
\<close>

definition init :: "widget_class \<Rightarrow> item_control" where
  "init c = \<lparr>cls = c, u_items = [], u_selected_index = Missing, parent = None,
             container_height = 0, emitted = [], refreshes = 0, scrolls = []\<rparr>"

text \<open>The property \<open>selected_index\<close>: reading an attribute that does not exist raises.\<close>

definition selected_index :: "item_control \<Rightarrow> py_error + int option" where
  "selected_index st =
     (case u_selected_index st of Missing \<Rightarrow> Inl AttributeError | Stored v \<Rightarrow> Inr v)"

definition clamp_index :: "item_control \<Rightarrow> int \<Rightarrow> int option" where
  "clamp_index st new_index =
     (if u_items st = [] then None
      else Some (clamp new_index 0 (int (length (u_items st)) - 1)))"

text \<open>The setter of the property \<open>selected_index\<close>.\<close>

definition selected_index_setter :: "int option \<Rightarrow> item_control \<Rightarrow> result" where
  "selected_index_setter new_value st =
     (case new_value of
        None \<Rightarrow> Inr (refresh st)
      | Some v \<Rightarrow>
          (let st1 = st\<lparr>u_selected_index := Stored (clamp_index st v)\<rparr> in
           case u_selected_index st1 of
             Stored (Some i) \<Rightarrow>
               (case getitem (u_items st1) i of
                  Inl e \<Rightarrow> Inl (e, st1)
                | Inr selected_item \<Rightarrow>
                    Inr (refresh (emit_no_wait (ItemSelected (cls st1) selected_item) st1)))
           | _ \<Rightarrow> Inr (refresh st1)))"

definition on_mount :: "item_control \<Rightarrow> result" where
  "on_mount st = selected_index_setter (Some 0) st"

text \<open>
  \<open>render\<close> builds an \<open>ItemListRenderable\<close> from the items and the selection;
  its \<open>__rich_console__\<close> makes one row per item and highlights the row whose
  number is the selection. A row is the label and whether it is highlighted; the styles
  come from the framework's style sheets.
\<close>

definition rich_console :: "string list \<Rightarrow> int option \<Rightarrow> (string \<times> bool) list" where
  "rich_console its sel = map (\<lambda>(i, item). (item, Some (int i) = sel)) (enumerate 0 its)"

definition render :: "item_control \<Rightarrow> py_error + (string \<times> bool) list" where
  "render st =
     (case selected_index st of
        Inl e \<Rightarrow> Inl e
      | Inr sel \<Rightarrow> Inr (rich_console (u_items st) sel))"

text \<open>\<open>get_content_height(container, viewport, width)\<close>, of which only
  \<open>container.height\<close> is read.\<close>

definition get_content_height :: "item_control \<Rightarrow> int \<Rightarrow> int" where
  "get_content_height st container_h = max (int (length (u_items st))) container_h"

definition add_items :: "string list \<Rightarrow> item_control \<Rightarrow> result" where
  "add_items its st =
     (let st1 = st\<lparr>u_items := u_items st @ its\<rparr> in
      case selected_index st1 of
        Inl e \<Rightarrow> Inl (e, st1)
      | Inr None \<Rightarrow> selected_index_setter (Some 0) st1
      | Inr (Some i) \<Rightarrow> Inr st1)"

text \<open>
  \<open>content_size = self.parent.content_size if self.parent else self.container_size\<close>,
  of which the height is read. A widget object is true in a condition.
\<close>

definition content_size_height :: "item_control \<Rightarrow> int" where
  "content_size_height st =
     (case parent st of Some p \<Rightarrow> content_height p | None \<Rightarrow> container_height st)"

text \<open>
  \<open>key_down\<close>. \<open>self.selected_index += 1\<close> reads the property, adds one (which
  raises \<open>TypeError\<close> on \<open>None\<close>) and calls the setter. The argument of the first
  \<open>log\<close> is evaluated from the left: the selection is read, then
  \<open>self.parent.scroll_offset\<close> (which raises on a missing parent), then the
  difference is taken, then the remainder.
\<close>

definition key_down :: "item_control \<Rightarrow> result" where
  "key_down st =
     (case selected_index st of
        Inl e \<Rightarrow> Inl (e, st)
      | Inr None \<Rightarrow> Inl (TypeError, st)
      | Inr (Some s) \<Rightarrow>
          (case selected_index_setter (Some (s + 1)) st of
             Inl err \<Rightarrow> Inl err
           | Inr st1 \<Rightarrow>
               (let h = content_size_height st1 in
                case selected_index st1 of
                  Inl e \<Rightarrow> Inl (e, st1)
                | Inr sel \<Rightarrow>
                    (case parent st1 of
                       None \<Rightarrow> Inl (AttributeError, st1)
                     | Some p \<Rightarrow>
                         (case sel of
                            None \<Rightarrow> Inl (TypeError, st1)
                          | Some i \<Rightarrow>
                              if h = 0 then Inl (ZeroDivisionError, st1)
                              else if (i - scroll_y p) mod h = 0
                              then Inr (st1\<lparr>scrolls := scrolls st1 @ [ScrollDown False]\<rparr>)
                              else Inr st1)))))"

text \<open>
  \<open>key_up\<close>. Here the argument of \<open>log\<close> adds one to the selection before
  \<open>self.parent.scroll_offset\<close> is read.
\<close>

definition key_up :: "item_control \<Rightarrow> result" where
  "key_up st =
     (case selected_index st of
        Inl e \<Rightarrow> Inl (e, st)
      | Inr None \<Rightarrow> Inl (TypeError, st)
      | Inr (Some s) \<Rightarrow>
          (case selected_index_setter (Some (s - 1)) st of
             Inl err \<Rightarrow> Inl err
           | Inr st1 \<Rightarrow>
               (let h = content_size_height st1 in
                case selected_index st1 of
                  Inl e \<Rightarrow> Inl (e, st1)
                | Inr sel \<Rightarrow>
                    (case sel of
                       None \<Rightarrow> Inl (TypeError, st1)
                     | Some i \<Rightarrow>
                         (case parent st1 of
                            None \<Rightarrow> Inl (AttributeError, st1)
                          | Some p \<Rightarrow>
                              if h = 0 then Inl (ZeroDivisionError, st1)
                              else if (i + 1 - scroll_y p) mod h = 0
                              then Inr (st1\<lparr>scrolls := scrolls st1 @ [ScrollUp False]\<rparr>)
                              else Inr st1)))))"

subsection \<open>Events\<close>

text \<open>
  What reaches a widget: the mount event, a bulk load, an assignment to the property,
  the two keys, and the framework placing the widget below a container or changing what
  that container shows (\<open>Viewport\<close>).
\<close>

datatype event =
    Mount
  | AddItems "string list"
  | SetSelectedIndex "int option"
  | KeyDown
  | KeyUp
  | Viewport "viewport option"

fun step :: "event \<Rightarrow> item_control \<Rightarrow> result" where
  "step Mount st = on_mount st"
| "step (AddItems its) st = add_items its st"
| "step (SetSelectedIndex v) st = selected_index_setter v st"
| "step KeyDown st = key_down st"
| "step KeyUp st = key_up st"
| "step (Viewport p) st = Inr (st\<lparr>parent := p\<rparr>)"

text \<open>Events are handled one at a time, in order; an exception ends the run.\<close>

fun run :: "event list \<Rightarrow> item_control \<Rightarrow> result" where
  "run [] st = Inr st"
| "run (e # es) st = (case step e st of Inl err \<Rightarrow> Inl err | Inr st' \<Rightarrow> run es st')"

text \<open>
  The widget object after a sequence of events, followed through the handlers that
  raise: the object is still there when an exception has left a handler.
\<close>

fun handle_all :: "event list \<Rightarrow> item_control \<Rightarrow> item_control" where
  "handle_all [] st = st"
| "handle_all (e # es) st = handle_all es (state_of (step e st))"

text \<open>
  A key pressed several times, once for each entry of the list; the entry is what the
  widget has above it at that press (no parent, or a viewport).
\<close>

fun presses :: "event \<Rightarrow> viewport option list \<Rightarrow> event list" where
  "presses k [] = []"
| "presses k (p # ps) = Viewport p # k # presses k ps"

text \<open>The widget is below a viewport that shows at least one row.\<close>

definition shown :: "viewport option \<Rightarrow> bool" where
  "shown p = (case p of None \<Rightarrow> False | Some v \<Rightarrow> content_height v \<noteq> 0)"

text \<open>
  The states of a widget object: what the constructor returns, and what any event
  leaves behind, also when its handler raised.
\<close>

inductive reachable :: "item_control \<Rightarrow> bool" where
  constructed: "reachable (init c)"
| handled: "reachable st \<Longrightarrow> reachable (state_of (step e st))"

text \<open>
  The invariant of a mounted widget: the selection attribute exists; it is \<open>None\<close>
  when there are no items and an index of the list otherwise.
\<close>

definition state_inv :: "item_control \<Rightarrow> bool" where
  "state_inv st =
     (case u_selected_index st of
        Missing \<Rightarrow> False
      | Stored None \<Rightarrow> u_items st = []
      | Stored (Some i) \<Rightarrow> 0 \<le> i \<and> i \<le> int (length (u_items st)) - 1)"

text \<open>The same object seen as an instance of another of the three classes.\<close>

fun retag_message :: "widget_class \<Rightarrow> message \<Rightarrow> message" where
  "retag_message c (ItemSelected c0 item) = ItemSelected c item"

definition retag :: "widget_class \<Rightarrow> item_control \<Rightarrow> item_control" where
  "retag c st = st\<lparr>cls := c, emitted := map (retag_message c) (emitted st)\<rparr>"

definition retag_result :: "widget_class \<Rightarrow> result \<Rightarrow> result" where
  "retag_result c r = (case r of Inl (e, st) \<Rightarrow> Inl (e, retag c st) | Inr st \<Rightarrow> Inr (retag c st))"

text \<open>
  What the setter makes of a widget with items when it is given the integer \<open>v\<close>:
  the selection is \<open>v\<close> cut to the list, one message carries the item there, and one
  refresh is requested.
\<close>

definition moved :: "item_control \<Rightarrow> int \<Rightarrow> item_control" where
  "moved st v =
     (let k = max 0 (min v (int (length (u_items st)) - 1))
      in refresh (emit_no_wait (ItemSelected (cls st) (u_items st ! nat k))
           (st\<lparr>u_selected_index := Stored (Some k)\<rparr>)))"

subsection \<open>Example objects\<close>

definition five_rows :: viewport where
  "five_rows = \<lparr>content_height = 5, scroll_y = 0\<rparr>"

text \<open>A mounted widget that has been given no items.\<close>

definition mounted_empty :: item_control where
  "mounted_empty = state_of (run [Viewport (Some five_rows), Mount] (init ItemControl))"

definition two_rows :: viewport where
  "two_rows = \<lparr>content_height = 2, scroll_y = 0\<rparr>"

text \<open>A mounted widget with one item; the selection is 0.\<close>

definition one_item :: item_control where
  "one_item =
     state_of (run [Viewport (Some five_rows), Mount, AddItems [''a'']] (init ItemControl))"

text \<open>Three items; the selection is 0, then 1, then 2.\<close>

definition three_items :: item_control where
  "three_items =
     state_of (run [Viewport (Some five_rows), Mount, AddItems [''env1'', ''env2.yaml'', ''env3'']]
                 (init EnvList))"

definition three_items_two_rows :: item_control where
  "three_items_two_rows =
     state_of (run [Viewport (Some two_rows), Mount, AddItems [''env1'', ''env2.yaml'', ''env3'']]
                 (init EnvList))"

definition three_items_at_1 :: item_control where
  "three_items_at_1 =
     state_of (run [Viewport (Some two_rows), Mount, AddItems [''env1'', ''env2.yaml'', ''env3''],
                    KeyDown] (init EnvList))"

definition three_items_at_2 :: item_control where
  "three_items_at_2 =
     state_of (run [Viewport (Some two_rows), Mount, AddItems [''env1'', ''env2.yaml'', ''env3''],
                    KeyDown, KeyDown] (init EnvList))"

text \<open>Five items below a viewport of five rows; the selection is 3.\<close>

definition five_items :: item_control where
  "five_items =
     state_of (run [Viewport (Some five_rows), Mount, AddItems [''a'', ''b'', ''c'', ''d'', ''e''],
                    KeyDown, KeyDown, KeyDown] (init ItemControl))"

text \<open>Six items below the same viewport; the selection is 4.\<close>

definition six_items :: item_control where
  "six_items =
     state_of (run [Viewport (Some five_rows), Mount,
                    AddItems [''a'', ''b'', ''c'', ''d'', ''e'', ''f''],
                    KeyDown, KeyDown, KeyDown, KeyDown] (init ItemControl))"

section \<open>Properties\<close>

subsection \<open>The setter, the keys and the invariant\<close>

lemma clamp_ordered: "lo \<le> hi \<Longrightarrow> clamp v lo hi = max lo (min v hi)"
  by (simp add: clamp_def Let_def max_def min_def)

lemma clamp_index_empty: "u_items st = [] \<Longrightarrow> clamp_index st v = None"
  by (simp add: clamp_index_def)

lemma clamp_index_nonempty:
  "u_items st \<noteq> [] \<Longrightarrow>
   clamp_index st v = Some (max 0 (min v (int (length (u_items st)) - 1)))"
proof -
  assume "u_items st \<noteq> []"
  then have "(0::int) \<le> int (length (u_items st)) - 1"
    by (cases "u_items st") simp_all
  then show ?thesis
    using \<open>u_items st \<noteq> []\<close> by (simp add: clamp_index_def clamp_ordered)
qed

lemma getitem_in_range: "0 \<le> i \<Longrightarrow> i < int (length xs) \<Longrightarrow> getitem xs i = Inr (xs ! nat i)"
  by (simp add: getitem_def)

lemma setter_None: "selected_index_setter None st = Inr (refresh st)"
  by (simp add: selected_index_setter_def)

lemma setter_empty:
  "u_items st = [] \<Longrightarrow>
   selected_index_setter (Some v) st = Inr (refresh (st\<lparr>u_selected_index := Stored None\<rparr>))"
  by (simp add: selected_index_setter_def clamp_index_empty Let_def)

lemma setter_nonempty:
  assumes "u_items st \<noteq> []"
  shows "selected_index_setter (Some v) st =
         Inr (refresh (emit_no_wait
           (ItemSelected (cls st) (u_items st ! nat (max 0 (min v (int (length (u_items st)) - 1)))))
           (st\<lparr>u_selected_index := Stored (Some (max 0 (min v (int (length (u_items st)) - 1))))\<rparr>)))"
proof -
  let ?k = "max 0 (min v (int (length (u_items st)) - 1))"
  have len: "0 < length (u_items st)" using assms by simp
  have k: "0 \<le> ?k" "?k < int (length (u_items st))"
    using len by auto
  have g: "getitem (u_items st) ?k = Inr (u_items st ! nat ?k)"
    using k by (rule getitem_in_range)
  show ?thesis
    using assms g by (simp add: selected_index_setter_def clamp_index_nonempty Let_def)
qed


lemma setter_moved: "u_items st \<noteq> [] \<Longrightarrow> selected_index_setter (Some v) st = Inr (moved st v)"
  by (simp add: setter_nonempty moved_def Let_def)

lemma moved_fields:
  "u_items (moved st v) = u_items st"
  "parent (moved st v) = parent st"
  "cls (moved st v) = cls st"
  "container_height (moved st v) = container_height st"
  "scrolls (moved st v) = scrolls st"
  "refreshes (moved st v) = Suc (refreshes st)"
  "u_selected_index (moved st v) = Stored (Some (max 0 (min v (int (length (u_items st)) - 1))))"
  "emitted (moved st v) =
     emitted st @ [ItemSelected (cls st) (u_items st ! nat (max 0 (min v (int (length (u_items st)) - 1))))]"
  by (simp_all add: moved_def Let_def refresh_def emit_no_wait_def)

lemma key_down_nonempty:
  assumes "u_items st \<noteq> []" and "u_selected_index st = Stored (Some s)"
    and "parent st = Some p" and "content_height p \<noteq> 0"
  shows "key_down st =
         Inr (if (max 0 (min (s + 1) (int (length (u_items st)) - 1)) - scroll_y p) mod content_height p = 0
              then (moved st (s + 1))\<lparr>scrolls := scrolls st @ [ScrollDown False]\<rparr>
              else moved st (s + 1))"
  using assms
  by (simp add: key_down_def selected_index_def setter_moved moved_fields content_size_height_def)

lemma key_up_nonempty:
  assumes "u_items st \<noteq> []" and "u_selected_index st = Stored (Some s)"
    and "parent st = Some p" and "content_height p \<noteq> 0"
  shows "key_up st =
         Inr (if (max 0 (min (s - 1) (int (length (u_items st)) - 1)) + 1 - scroll_y p) mod content_height p = 0
              then (moved st (s - 1))\<lparr>scrolls := scrolls st @ [ScrollUp False]\<rparr>
              else moved st (s - 1))"
  using assms
  by (simp add: key_up_def selected_index_def setter_moved moved_fields content_size_height_def)

lemma key_down_none:
  "u_selected_index st = Stored None \<Longrightarrow> key_down st = Inl (TypeError, st)"
  by (simp add: key_down_def selected_index_def)

lemma key_up_none:
  "u_selected_index st = Stored None \<Longrightarrow> key_up st = Inl (TypeError, st)"
  by (simp add: key_up_def selected_index_def)


lemma state_inv_iff:
  "state_inv st \<longleftrightarrow>
     (u_items st \<noteq> [] \<longrightarrow>
        (\<exists>i. u_selected_index st = Stored (Some i) \<and> 0 \<le> i \<and> i \<le> int (length (u_items st)) - 1)) \<and>
     (u_items st = [] \<longrightarrow> u_selected_index st = Stored None)"
  by (cases "u_items st") (auto simp: state_inv_def split: attribute.splits option.splits)

lemma state_inv_cong:
  "u_items a = u_items b \<Longrightarrow> u_selected_index a = u_selected_index b \<Longrightarrow>
   state_inv a = state_inv b"
  by (simp add: state_inv_def split: attribute.split option.split)

lemma state_inv_frame [simp]:
  "state_inv (st\<lparr>scrolls := sc\<rparr>) = state_inv st"
  "state_inv (st\<lparr>parent := p\<rparr>) = state_inv st"
  "state_inv (refresh st) = state_inv st"
  "state_inv (emit_no_wait m st) = state_inv st"
  by (rule state_inv_cong; simp add: refresh_def emit_no_wait_def)+

lemma state_inv_moved: "u_items st \<noteq> [] \<Longrightarrow> state_inv (moved st v)"
proof -
  assume "u_items st \<noteq> []"
  then have "1 \<le> int (length (u_items st))" by (cases "u_items st") simp_all
  then have "0 \<le> max 0 (min v (int (length (u_items st)) - 1))"
    and "max 0 (min v (int (length (u_items st)) - 1)) \<le> int (length (u_items st)) - 1"
    by linarith+
  then show ?thesis by (simp only: state_inv_def moved_fields attribute.case option.case simp_thms)
qed

lemma state_inv_setter: "state_inv (state_of (selected_index_setter (Some v) st))"
proof (cases "u_items st = []")
  case True
  then show ?thesis by (simp add: setter_empty state_of_def state_inv_def refresh_def)
next
  case False
  then show ?thesis by (simp add: setter_moved state_of_def state_inv_moved)
qed

lemma state_inv_setter_None:
  "state_inv st \<Longrightarrow> state_inv (state_of (selected_index_setter None st))"
  by (simp add: setter_None state_of_def)

lemma state_inv_add_items:
  assumes "state_inv st"
  shows "state_inv (state_of (add_items its st))"
proof (cases "u_selected_index st")
  case Missing
  with assms show ?thesis by (simp add: state_inv_def)
next
  case (Stored sel)
  show ?thesis
  proof (cases sel)
    case None
    have "add_items its st = selected_index_setter (Some 0) (st\<lparr>u_items := u_items st @ its\<rparr>)"
      using Stored None by (simp add: add_items_def selected_index_def)
    then show ?thesis by (simp add: state_inv_setter)
  next
    case (Some i)
    have "add_items its st = Inr (st\<lparr>u_items := u_items st @ its\<rparr>)"
      using Stored Some by (simp add: add_items_def selected_index_def)
    then show ?thesis using assms Stored Some by (simp add: state_of_def state_inv_def)
  qed
qed

lemma key_down_state:
  assumes "u_items st \<noteq> []" and "u_selected_index st = Stored (Some s)"
  shows "state_of (key_down st) = moved st (s + 1) \<or>
         state_of (key_down st) = (moved st (s + 1))\<lparr>scrolls := scrolls st @ [ScrollDown False]\<rparr>"
  using assms
  by (cases "parent st")
     (simp_all add: key_down_def selected_index_def setter_moved moved_fields state_of_def Let_def)

lemma key_up_state:
  assumes "u_items st \<noteq> []" and "u_selected_index st = Stored (Some s)"
  shows "state_of (key_up st) = moved st (s - 1) \<or>
         state_of (key_up st) = (moved st (s - 1))\<lparr>scrolls := scrolls st @ [ScrollUp False]\<rparr>"
  using assms
  by (cases "parent st")
     (simp_all add: key_up_def selected_index_def setter_moved moved_fields state_of_def Let_def)

lemma state_inv_nonempty:
  "state_inv st \<Longrightarrow> u_selected_index st = Stored (Some s) \<Longrightarrow> u_items st \<noteq> []"
  by (auto simp: state_inv_def)

lemma state_inv_key_down:
  assumes "state_inv st"
  shows "state_inv (state_of (key_down st))"
proof (cases "u_selected_index st")
  case Missing
  with assms show ?thesis by (simp add: state_inv_def)
next
  case (Stored sel)
  show ?thesis
  proof (cases sel)
    case None
    then show ?thesis using Stored assms by (simp add: key_down_none state_of_def)
  next
    case (Some s)
    have ne: "u_items st \<noteq> []" using assms Stored Some by (simp add: state_inv_nonempty)
    from key_down_state [OF ne] Stored Some state_inv_moved [OF ne, of "s + 1"]
    show ?thesis by auto
  qed
qed

lemma state_inv_key_up:
  assumes "state_inv st"
  shows "state_inv (state_of (key_up st))"
proof (cases "u_selected_index st")
  case Missing
  with assms show ?thesis by (simp add: state_inv_def)
next
  case (Stored sel)
  show ?thesis
  proof (cases sel)
    case None
    then show ?thesis using Stored assms by (simp add: key_up_none state_of_def)
  next
    case (Some s)
    have ne: "u_items st \<noteq> []" using assms Stored Some by (simp add: state_inv_nonempty)
    from key_up_state [OF ne] Stored Some state_inv_moved [OF ne, of "s - 1"]
    show ?thesis by auto
  qed
qed

lemma state_inv_step: "state_inv st \<Longrightarrow> state_inv (state_of (step e st))"
proof (cases e)
  case (SetSelectedIndex v)
  assume "state_inv st"
  then show ?thesis using SetSelectedIndex
    by (cases v) (simp_all add: state_inv_setter state_inv_setter_None)
next
  case (Viewport p)
  assume "state_inv st"
  then show ?thesis using Viewport by (simp add: state_of_def)
qed (simp_all add: on_mount_def state_inv_setter state_inv_add_items state_inv_key_down
       state_inv_key_up)

lemma unmounted_step:
  assumes "u_selected_index st = Missing"
  shows "u_selected_index (state_of (step e st)) = Missing \<or> state_inv (state_of (step e st))"
proof (cases e)
  case Mount
  then show ?thesis by (simp add: on_mount_def state_inv_setter)
next
  case (AddItems its)
  then show ?thesis using assms by (simp add: add_items_def selected_index_def state_of_def)
next
  case (SetSelectedIndex v)
  show ?thesis
  proof (cases v)
    case None
    then show ?thesis using assms SetSelectedIndex
      by (simp add: setter_None state_of_def refresh_def)
  next
    case (Some a)
    then show ?thesis using SetSelectedIndex by (simp add: state_inv_setter)
  qed
next
  case KeyDown
  then show ?thesis using assms by (simp add: key_down_def selected_index_def state_of_def)
next
  case KeyUp
  then show ?thesis using assms by (simp add: key_up_def selected_index_def state_of_def)
next
  case (Viewport p)
  then show ?thesis using assms by (simp add: state_of_def)
qed

lemma reachable_cases:
  "reachable st \<Longrightarrow> u_selected_index st = Missing \<or> state_inv st"
proof (induction rule: reachable.induct)
  case (constructed c)
  then show ?case by (simp add: init_def)
next
  case (handled st e)
  then show ?case using unmounted_step [of st e] state_inv_step [of st e] by blast
qed

subsection \<open>The key handlers, case by case\<close>

lemma key_down_cases:
  assumes "u_items st \<noteq> []" and "u_selected_index st = Stored (Some s)"
  shows "key_down st =
         (case parent st of
            None \<Rightarrow> Inl (AttributeError, moved st (s + 1))
          | Some p \<Rightarrow>
              if content_height p = 0 then Inl (ZeroDivisionError, moved st (s + 1))
              else if (max 0 (min (s + 1) (int (length (u_items st)) - 1)) - scroll_y p)
                        mod content_height p = 0
              then Inr ((moved st (s + 1))\<lparr>scrolls := scrolls st @ [ScrollDown False]\<rparr>)
              else Inr (moved st (s + 1)))"
  using assms
  by (cases "parent st")
     (simp_all add: key_down_def selected_index_def setter_moved moved_fields
        content_size_height_def Let_def)

lemma key_up_cases:
  assumes "u_items st \<noteq> []" and "u_selected_index st = Stored (Some s)"
  shows "key_up st =
         (case parent st of
            None \<Rightarrow> Inl (AttributeError, moved st (s - 1))
          | Some p \<Rightarrow>
              if content_height p = 0 then Inl (ZeroDivisionError, moved st (s - 1))
              else if (max 0 (min (s - 1) (int (length (u_items st)) - 1)) + 1 - scroll_y p)
                        mod content_height p = 0
              then Inr ((moved st (s - 1))\<lparr>scrolls := scrolls st @ [ScrollUp False]\<rparr>)
              else Inr (moved st (s - 1)))"
  using assms
  by (cases "parent st")
     (simp_all add: key_up_def selected_index_def setter_moved moved_fields
        content_size_height_def Let_def)

lemma key_down_no_items:
  assumes "u_items st = []" and "u_selected_index st = Stored (Some s)"
  shows "key_down st =
         (case parent st of
            None \<Rightarrow> Inl (AttributeError, refresh (st\<lparr>u_selected_index := Stored None\<rparr>))
          | Some p \<Rightarrow> Inl (TypeError, refresh (st\<lparr>u_selected_index := Stored None\<rparr>)))"
  using assms
  by (cases "parent st")
     (simp_all add: key_down_def selected_index_def setter_empty refresh_def Let_def)

lemma key_up_no_items:
  assumes "u_items st = []" and "u_selected_index st = Stored (Some s)"
  shows "key_up st = Inl (TypeError, refresh (st\<lparr>u_selected_index := Stored None\<rparr>))"
  using assms
  by (simp add: key_up_def selected_index_def setter_empty refresh_def Let_def)

lemma key_down_missing: "u_selected_index st = Missing \<Longrightarrow> key_down st = Inl (AttributeError, st)"
  by (simp add: key_down_def selected_index_def)

lemma key_up_missing: "u_selected_index st = Missing \<Longrightarrow> key_up st = Inl (AttributeError, st)"
  by (simp add: key_up_def selected_index_def)

subsection \<open>Runs stay among the states of a widget\<close>

lemma reachable_run: "reachable st \<Longrightarrow> reachable (state_of (run es st))"
proof (induction es arbitrary: st)
  case Nil
  then show ?case by (simp add: state_of_def)
next
  case (Cons e es)
  have r: "reachable (state_of (step e st))" using Cons.prems by (rule handled)
  show ?case
  proof (cases "step e st")
    case (Inl err)
    then show ?thesis using r by (simp add: state_of_def)
  next
    case (Inr st')
    then have "reachable st'" using r by (simp add: state_of_def)
    then show ?thesis using Inr Cons.IH by simp
  qed
qed

subsection \<open>The class of the widget only tags its messages\<close>

lemma retag_fields:
  "cls (retag c st) = c"
  "u_items (retag c st) = u_items st"
  "u_selected_index (retag c st) = u_selected_index st"
  "parent (retag c st) = parent st"
  "container_height (retag c st) = container_height st"
  "scrolls (retag c st) = scrolls st"
  "refreshes (retag c st) = refreshes st"
  "emitted (retag c st) = map (retag_message c) (emitted st)"
  by (simp_all add: retag_def)

lemma retag_updates:
  "retag c (st\<lparr>scrolls := sc\<rparr>) = (retag c st)\<lparr>scrolls := sc\<rparr>"
  "retag c (st\<lparr>parent := p\<rparr>) = (retag c st)\<lparr>parent := p\<rparr>"
  "retag c (st\<lparr>u_items := xs\<rparr>) = (retag c st)\<lparr>u_items := xs\<rparr>"
  "retag c (st\<lparr>u_selected_index := v\<rparr>) = (retag c st)\<lparr>u_selected_index := v\<rparr>"
  "retag c (refresh st) = refresh (retag c st)"
  "retag c (emit_no_wait (ItemSelected (cls st) x) st) =
     emit_no_wait (ItemSelected c x) (retag c st)"
  by (simp_all add: retag_def refresh_def emit_no_wait_def)

lemma retag_result_simps:
  "retag_result c (Inl (e, st)) = Inl (e, retag c st)"
  "retag_result c (Inr st) = Inr (retag c st)"
  by (simp_all add: retag_result_def)

lemma retag_selected_index: "selected_index (retag c st) = selected_index st"
  by (simp add: selected_index_def retag_fields)

lemma retag_moved: "moved (retag c st) v = retag c (moved st v)"
  by (simp add: moved_def Let_def retag_def refresh_def emit_no_wait_def)

lemma retag_setter:
  "selected_index_setter v (retag c st) = retag_result c (selected_index_setter v st)"
proof (cases v)
  case None
  then show ?thesis by (simp add: setter_None retag_result_simps retag_updates)
next
  case (Some i)
  show ?thesis
  proof (cases "u_items st = []")
    case True
    then show ?thesis using Some
      by (simp add: setter_empty retag_fields retag_result_simps retag_updates)
  next
    case False
    then show ?thesis using Some
      by (simp add: setter_moved retag_fields retag_result_simps retag_moved)
  qed
qed

lemma retag_add_items: "add_items its (retag c st) = retag_result c (add_items its st)"
proof (cases "u_selected_index st")
  case Missing
  then show ?thesis
    by (simp add: add_items_def selected_index_def retag_fields retag_result_simps retag_updates)
next
  case (Stored sel)
  show ?thesis
  proof (cases sel)
    case None
    have "add_items its (retag c st) =
            selected_index_setter (Some 0) (retag c (st\<lparr>u_items := u_items st @ its\<rparr>))"
      using Stored None by (simp add: add_items_def selected_index_def retag_fields retag_updates)
    also have "\<dots> = retag_result c (selected_index_setter (Some 0) (st\<lparr>u_items := u_items st @ its\<rparr>))"
      by (rule retag_setter)
    also have "selected_index_setter (Some 0) (st\<lparr>u_items := u_items st @ its\<rparr>) = add_items its st"
      using Stored None by (simp add: add_items_def selected_index_def)
    finally show ?thesis .
  next
    case (Some i)
    then show ?thesis using Stored
      by (simp add: add_items_def selected_index_def retag_fields retag_result_simps retag_updates)
  qed
qed

lemma retag_key_down: "key_down (retag c st) = retag_result c (key_down st)"
proof (cases "u_selected_index st")
  case Missing
  then show ?thesis by (simp add: key_down_missing retag_fields retag_result_simps)
next
  case (Stored sel)
  show ?thesis
  proof (cases sel)
    case None
    then show ?thesis using Stored by (simp add: key_down_none retag_fields retag_result_simps)
  next
    case (Some s)
    show ?thesis
    proof (cases "u_items st = []")
      case True
      then show ?thesis using Stored Some
        by (cases "parent st")
           (simp_all add: key_down_no_items retag_fields retag_result_simps retag_updates)
    next
      case False
      then show ?thesis using Stored Some
        by (cases "parent st")
           (simp_all add: key_down_cases retag_fields retag_result_simps retag_updates retag_moved)
    qed
  qed
qed

lemma retag_key_up: "key_up (retag c st) = retag_result c (key_up st)"
proof (cases "u_selected_index st")
  case Missing
  then show ?thesis by (simp add: key_up_missing retag_fields retag_result_simps)
next
  case (Stored sel)
  show ?thesis
  proof (cases sel)
    case None
    then show ?thesis using Stored by (simp add: key_up_none retag_fields retag_result_simps)
  next
    case (Some s)
    show ?thesis
    proof (cases "u_items st = []")
      case True
      then show ?thesis using Stored Some
        by (simp add: key_up_no_items retag_fields retag_result_simps retag_updates)
    next
      case False
      then show ?thesis using Stored Some
        by (cases "parent st")
           (simp_all add: key_up_cases retag_fields retag_result_simps retag_updates retag_moved)
    qed
  qed
qed

lemma retag_step: "step e (retag c st) = retag_result c (step e st)"
  by (cases e)
     (simp_all add: on_mount_def retag_setter retag_add_items retag_key_down retag_key_up
        retag_result_simps retag_updates)

lemma retag_run: "run es (retag c st) = retag_result c (run es st)"
proof (induction es arbitrary: st)
  case Nil
  then show ?case by (simp add: retag_result_simps)
next
  case (Cons e es)
  show ?case
  proof (cases "step e st")
    case (Inl err)
    then show ?thesis by (cases err) (simp add: retag_step retag_result_simps)
  next
    case (Inr st')
    then show ?thesis by (simp add: retag_step retag_result_simps Cons.IH)
  qed
qed

lemma retag_init: "retag c (init c') = init c"
  by (simp add: init_def retag_def)

lemma retag_render: "render (retag c st) = render st"
  by (simp add: render_def retag_selected_index retag_fields split: sum.split)

lemma retag_get_content_height: "get_content_height (retag c st) h = get_content_height st h"
  by (simp add: get_content_height_def retag_fields)

subsection \<open>Keys pressed again and again\<close>

lemma run_handle_all: "run es st = Inr st' \<Longrightarrow> handle_all es st = st'"
proof (induction es arbitrary: st)
  case Nil
  then show ?case by simp
next
  case (Cons e es)
  show ?case
  proof (cases "step e st")
    case (Inl err)
    then show ?thesis using Cons.prems by simp
  next
    case (Inr st1)
    then have "run es st1 = Inr st'" using Cons.prems by simp
    then have "handle_all es st1 = st'" by (rule Cons.IH)
    then show ?thesis using Inr by (simp add: state_of_def)
  qed
qed

lemma key_down_leaves:
  assumes "u_items st \<noteq> []" and "u_selected_index st = Stored (Some s)"
  shows "u_items (state_of (key_down st)) = u_items st \<and>
         u_selected_index (state_of (key_down st)) =
           Stored (Some (max 0 (min (s + 1) (int (length (u_items st)) - 1))))"
  using key_down_state [OF assms] by (auto simp: moved_fields)

lemma key_up_leaves:
  assumes "u_items st \<noteq> []" and "u_selected_index st = Stored (Some s)"
  shows "u_items (state_of (key_up st)) = u_items st \<and>
         u_selected_index (state_of (key_up st)) =
           Stored (Some (max 0 (min (s - 1) (int (length (u_items st)) - 1))))"
  using key_up_state [OF assms] by (auto simp: moved_fields)

lemma handle_presses_down:
  assumes "u_items st \<noteq> []" and "u_selected_index st = Stored (Some s)"
    and "0 \<le> s" and "s \<le> int (length (u_items st)) - 1"
  shows "u_items (handle_all (presses KeyDown ps) st) = u_items st \<and>
         u_selected_index (handle_all (presses KeyDown ps) st) =
           Stored (Some (min (s + int (length ps)) (int (length (u_items st)) - 1)))"
  using assms
proof (induction ps arbitrary: st s)
  case Nil
  then show ?case by simp
next
  case (Cons p ps)
  let ?st0 = "st\<lparr>parent := p\<rparr>"
  let ?st1 = "state_of (key_down ?st0)"
  let ?n = "int (length (u_items st))"
  have l: "u_items ?st1 = u_items st"
    and sel: "u_selected_index ?st1 = Stored (Some (max 0 (min (s + 1) (?n - 1))))"
    using key_down_leaves [of ?st0 s] Cons.prems(1,2) by simp_all
  have s1: "max 0 (min (s + 1) (?n - 1)) = min (s + 1) (?n - 1)"
    using Cons.prems(3,4) by linarith
  have "u_items (handle_all (presses KeyDown ps) ?st1) = u_items ?st1 \<and>
        u_selected_index (handle_all (presses KeyDown ps) ?st1) =
          Stored (Some (min (min (s + 1) (?n - 1) + int (length ps)) (int (length (u_items ?st1)) - 1)))"
  proof (rule Cons.IH)
    show "u_items ?st1 \<noteq> []" using l Cons.prems(1) by simp
    show "u_selected_index ?st1 = Stored (Some (min (s + 1) (?n - 1)))" using sel s1 by simp
    show "0 \<le> min (s + 1) (?n - 1)" using Cons.prems(3,4) by linarith
    show "min (s + 1) (?n - 1) \<le> int (length (u_items ?st1)) - 1" unfolding l by simp
  qed
  moreover have "min (min (s + 1) (?n - 1) + int (length ps)) (?n - 1) =
                 min (s + int (length (p # ps))) (?n - 1)"
    by simp
  moreover have "handle_all (presses KeyDown (p # ps)) st = handle_all (presses KeyDown ps) ?st1"
    by (simp add: state_of_def)
  ultimately show ?case using l by simp
qed

lemma handle_presses_up:
  assumes "u_items st \<noteq> []" and "u_selected_index st = Stored (Some s)"
    and "0 \<le> s" and "s \<le> int (length (u_items st)) - 1"
  shows "u_items (handle_all (presses KeyUp ps) st) = u_items st \<and>
         u_selected_index (handle_all (presses KeyUp ps) st) =
           Stored (Some (max (s - int (length ps)) 0))"
  using assms
proof (induction ps arbitrary: st s)
  case Nil
  then show ?case by simp
next
  case (Cons p ps)
  let ?st0 = "st\<lparr>parent := p\<rparr>"
  let ?st1 = "state_of (key_up ?st0)"
  let ?n = "int (length (u_items st))"
  have l: "u_items ?st1 = u_items st"
    and sel: "u_selected_index ?st1 = Stored (Some (max 0 (min (s - 1) (?n - 1))))"
    using key_up_leaves [of ?st0 s] Cons.prems(1,2) by simp_all
  have s1: "max 0 (min (s - 1) (?n - 1)) = max (s - 1) 0"
    using Cons.prems(3,4) by linarith
  have "u_items (handle_all (presses KeyUp ps) ?st1) = u_items ?st1 \<and>
        u_selected_index (handle_all (presses KeyUp ps) ?st1) =
          Stored (Some (max (max (s - 1) 0 - int (length ps)) 0))"
  proof (rule Cons.IH)
    show "u_items ?st1 \<noteq> []" using l Cons.prems(1) by simp
    show "u_selected_index ?st1 = Stored (Some (max (s - 1) 0))" using sel s1 by simp
    show "0 \<le> max (s - 1) 0" by simp
    show "max (s - 1) 0 \<le> int (length (u_items ?st1)) - 1"
      unfolding l using Cons.prems(3,4) by linarith
  qed
  moreover have "max (max (s - 1) 0 - int (length ps)) 0 = max (s - int (length (p # ps))) 0"
    by simp
  moreover have "handle_all (presses KeyUp (p # ps)) st = handle_all (presses KeyUp ps) ?st1"
    by (simp add: state_of_def)
  ultimately show ?case using l by simp
qed

lemma key_down_returns:
  assumes "u_items st \<noteq> []" and "u_selected_index st = Stored (Some s)" and "shown (parent st)"
  shows "raised (key_down st) = None"
proof -
  obtain v where "parent st = Some v" and "content_height v \<noteq> 0"
    using assms(3) by (auto simp: shown_def split: option.splits)
  then show ?thesis
    by (simp add: key_down_nonempty [OF assms(1,2)] raised_def)
qed

lemma key_up_returns:
  assumes "u_items st \<noteq> []" and "u_selected_index st = Stored (Some s)" and "shown (parent st)"
  shows "raised (key_up st) = None"
proof -
  obtain v where "parent st = Some v" and "content_height v \<noteq> 0"
    using assms(3) by (auto simp: shown_def split: option.splits)
  then show ?thesis
    by (simp add: key_up_nonempty [OF assms(1,2)] raised_def)
qed

lemma raised_None: "raised r = None \<Longrightarrow> r = Inr (state_of r)"
  by (cases r) (auto simp: raised_def state_of_def)

lemma run_presses_down:
  assumes "u_items st \<noteq> []" and "u_selected_index st = Stored (Some s)" and "list_all shown ps"
  shows "run (presses KeyDown ps) st = Inr (handle_all (presses KeyDown ps) st)"
  using assms
proof (induction ps arbitrary: st s)
  case Nil
  then show ?case by simp
next
  case (Cons p ps)
  let ?st0 = "st\<lparr>parent := p\<rparr>"
  let ?st1 = "state_of (key_down ?st0)"
  have p: "shown p" and ps: "list_all shown ps" using Cons.prems(3) by simp_all
  have "raised (key_down ?st0) = None"
    using key_down_returns [of ?st0 s] Cons.prems(1,2) p by simp
  then have k: "key_down ?st0 = Inr ?st1" by (rule raised_None)
  have l: "u_items ?st1 \<noteq> []"
    and sel: "u_selected_index ?st1 =
                Stored (Some (max 0 (min (s + 1) (int (length (u_items st)) - 1))))"
    using key_down_leaves [of ?st0 s] Cons.prems(1,2) by simp_all
  have "run (presses KeyDown ps) ?st1 = Inr (handle_all (presses KeyDown ps) ?st1)"
    using l sel ps by (rule Cons.IH)
  moreover have "run (presses KeyDown (p # ps)) st = run (presses KeyDown ps) ?st1"
    using k by (cases "key_down ?st0") (simp_all add: state_of_def)
  moreover have "handle_all (presses KeyDown (p # ps)) st = handle_all (presses KeyDown ps) ?st1"
    by (simp add: state_of_def)
  ultimately show ?case by simp
qed

lemma run_presses_up:
  assumes "u_items st \<noteq> []" and "u_selected_index st = Stored (Some s)" and "list_all shown ps"
  shows "run (presses KeyUp ps) st = Inr (handle_all (presses KeyUp ps) st)"
  using assms
proof (induction ps arbitrary: st s)
  case Nil
  then show ?case by simp
next
  case (Cons p ps)
  let ?st0 = "st\<lparr>parent := p\<rparr>"
  let ?st1 = "state_of (key_up ?st0)"
  have p: "shown p" and ps: "list_all shown ps" using Cons.prems(3) by simp_all
  have "raised (key_up ?st0) = None"
    using key_up_returns [of ?st0 s] Cons.prems(1,2) p by simp
  then have k: "key_up ?st0 = Inr ?st1" by (rule raised_None)
  have l: "u_items ?st1 \<noteq> []"
    and sel: "u_selected_index ?st1 =
                Stored (Some (max 0 (min (s - 1) (int (length (u_items st)) - 1))))"
    using key_up_leaves [of ?st0 s] Cons.prems(1,2) by simp_all
  have "run (presses KeyUp ps) ?st1 = Inr (handle_all (presses KeyUp ps) ?st1)"
    using l sel ps by (rule Cons.IH)
  moreover have "run (presses KeyUp (p # ps)) st = run (presses KeyUp ps) ?st1"
    using k by (cases "key_up ?st0") (simp_all add: state_of_def)
  moreover have "handle_all (presses KeyUp (p # ps)) st = handle_all (presses KeyUp ps) ?st1"
    by (simp add: state_of_def)
  ultimately show ?case by simp
qed

subsection \<open>The keys on an empty list\<close>

text \<open>
  C1. The specification has select-next and select-previous on an empty list as no-ops
  that raise nothing. On a mounted widget without items the selection is \<open>None\<close>, and
  both handlers raise \<open>TypeError\<close> at \<open>self.selected_index += 1\<close> and
  \<open>self.selected_index -= 1\<close>: the list and the selection stay as they were and
  nothing is emitted, but the call does not return.
\<close>

theorem keys_on_empty_list_raise:
  "u_items mounted_empty = [] \<and> u_selected_index mounted_empty = Stored None \<and>
   key_down mounted_empty = Inl (TypeError, mounted_empty) \<and>
   key_up mounted_empty = Inl (TypeError, mounted_empty)"
  by code_simp

subsection \<open>When the setter notifies\<close>

text \<open>
  An assignment that leaves the selection where it was still notifies: on the widget
  with the single item \<open>a\<close> selected, assigning 0 again is cut to 0, the selection it
  already has, and one more \<open>ItemSelected\<close> for \<open>a\<close> is emitted.
\<close>

theorem setter_emits_without_change:
  "u_items one_item = [''a''] \<and> u_selected_index one_item = Stored (Some 0) \<and>
   clamp_index one_item 0 = Some 0 \<and>
   raised (selected_index_setter (Some 0) one_item) = None \<and>
   emitted (state_of (selected_index_setter (Some 0) one_item)) =
     emitted one_item @ [ItemSelected ItemControl ''a'']"
  by code_simp

text \<open>
  C2 (amended). The setter compares nothing with the previous selection. On a widget
  with a non-empty list of \<open>n\<close> items, assigning an integer \<open>v\<close> returns and
  emits exactly one \<open>ItemSelected\<close> notification, which carries the label of the item
  at the index \<open>max 0 (min v (n - 1))\<close>, whether or not that index differs from the
  previous selection; the selection becomes that index. Assigning \<open>None\<close> returns,
  emits nothing and leaves the selection as it was.
\<close>

theorem setter_always_emits:
  assumes "u_items st \<noteq> []"
  shows "(\<exists>st'. selected_index_setter (Some v) st = Inr st' \<and>
            clamp_index st v = Some (max 0 (min v (int (length (u_items st)) - 1))) \<and>
            u_items st' = u_items st \<and>
            u_selected_index st' = Stored (Some (max 0 (min v (int (length (u_items st)) - 1)))) \<and>
            emitted st' = emitted st @
              [ItemSelected (cls st)
                 (u_items st ! nat (max 0 (min v (int (length (u_items st)) - 1))))]) \<and>
         (\<exists>st'. selected_index_setter None st = Inr st' \<and>
            u_items st' = u_items st \<and>
            u_selected_index st' = u_selected_index st \<and>
            emitted st' = emitted st)"
proof -
  have a: "\<exists>st'. selected_index_setter (Some v) st = Inr st' \<and>
            clamp_index st v = Some (max 0 (min v (int (length (u_items st)) - 1))) \<and>
            u_items st' = u_items st \<and>
            u_selected_index st' = Stored (Some (max 0 (min v (int (length (u_items st)) - 1)))) \<and>
            emitted st' = emitted st @
              [ItemSelected (cls st)
                 (u_items st ! nat (max 0 (min v (int (length (u_items st)) - 1))))]"
    using assms by (simp add: clamp_index_nonempty setter_moved moved_fields)
  have b: "\<exists>st'. selected_index_setter None st = Inr st' \<and>
            u_items st' = u_items st \<and>
            u_selected_index st' = u_selected_index st \<and>
            emitted st' = emitted st"
    by (simp add: setter_None refresh_def)
  from a b show ?thesis by (rule conjI)
qed

text \<open>
  An instance, on the widget with three items and the first selected: assigning 7
  selects index 2 and notifies for \<open>env3\<close>; assigning \<open>None\<close> changes nothing.
\<close>

theorem setter_always_emits_witness:
  "(\<exists>st'. selected_index_setter (Some 7) three_items = Inr st' \<and>
      clamp_index three_items 7 = Some 2 \<and>
      u_items st' = [''env1'', ''env2.yaml'', ''env3''] \<and>
      u_selected_index st' = Stored (Some 2) \<and>
      emitted st' = [ItemSelected EnvList ''env1'', ItemSelected EnvList ''env3'']) \<and>
   (\<exists>st'. selected_index_setter None three_items = Inr st' \<and>
      u_items st' = [''env1'', ''env2.yaml'', ''env3''] \<and>
      u_selected_index st' = Stored (Some 0) \<and>
      emitted st' = [ItemSelected EnvList ''env1''])"
proof -
  have 1: "u_items three_items \<noteq> []" by code_simp
  have i: "u_items three_items = [''env1'', ''env2.yaml'', ''env3'']" by code_simp
  have s: "u_selected_index three_items = Stored (Some 0)" by code_simp
  have e: "emitted three_items = [ItemSelected EnvList ''env1'']" by code_simp
  have c: "cls three_items = EnvList" by code_simp
  from setter_always_emits [OF 1, of 7] show ?thesis
    unfolding i s e c by simp
qed

subsection \<open>When the keys ask the viewport to scroll\<close>

text \<open>
  C3. On a widget with a non-empty list of \<open>n\<close> items, selection \<open>s\<close>, below a
  viewport with scroll offset \<open>o\<close> and content height \<open>h > 0\<close>: \<open>key_down\<close>
  returns, with exactly one request \<open>scroll_down(animate=False)\<close> added if
  \<open>(new_index - o) mod h = 0\<close> and none otherwise, where \<open>new_index\<close>, the new
  selection, is \<open>s + 1\<close> clamped, that is \<open>max 0 (min (s + 1) (n - 1))\<close>;
  \<open>key_up\<close> returns, with exactly one request \<open>scroll_up(animate=False)\<close> added if
  \<open>(new_index + 1 - o) mod h = 0\<close> and none otherwise, where \<open>new_index\<close> is
  \<open>s - 1\<close> clamped, that is \<open>max 0 (min (s - 1) (n - 1))\<close>.
\<close>

theorem scroll_request_condition:
  assumes "u_items st \<noteq> []" and "u_selected_index st = Stored (Some s)"
    and "parent st = Some p" and "0 < content_height p"
  shows "(\<exists>new_index st'. new_index = max 0 (min (s + 1) (int (length (u_items st)) - 1)) \<and>
            clamp_index st (s + 1) = Some new_index \<and> key_down st = Inr st' \<and>
            u_selected_index st' = Stored (Some new_index) \<and>
            scrolls st' = scrolls st @
              (if (new_index - scroll_y p) mod content_height p = 0 then [ScrollDown False] else [])) \<and>
         (\<exists>new_index st'. new_index = max 0 (min (s - 1) (int (length (u_items st)) - 1)) \<and>
            clamp_index st (s - 1) = Some new_index \<and> key_up st = Inr st' \<and>
            u_selected_index st' = Stored (Some new_index) \<and>
            scrolls st' = scrolls st @
              (if (new_index + 1 - scroll_y p) mod content_height p = 0 then [ScrollUp False] else []))"
proof -
  have h: "content_height p \<noteq> 0" using assms(4) by simp
  have d: "\<exists>new_index st'. new_index = max 0 (min (s + 1) (int (length (u_items st)) - 1)) \<and>
            clamp_index st (s + 1) = Some new_index \<and> key_down st = Inr st' \<and>
            u_selected_index st' = Stored (Some new_index) \<and>
            scrolls st' = scrolls st @
              (if (new_index - scroll_y p) mod content_height p = 0 then [ScrollDown False] else [])"
    using assms(1) by (simp add: key_down_nonempty [OF assms(1,2,3) h] clamp_index_nonempty moved_fields)
  have u: "\<exists>new_index st'. new_index = max 0 (min (s - 1) (int (length (u_items st)) - 1)) \<and>
            clamp_index st (s - 1) = Some new_index \<and> key_up st = Inr st' \<and>
            u_selected_index st' = Stored (Some new_index) \<and>
            scrolls st' = scrolls st @
              (if (new_index + 1 - scroll_y p) mod content_height p = 0 then [ScrollUp False] else [])"
    using assms(1) by (simp add: key_up_nonempty [OF assms(1,2,3) h] clamp_index_nonempty moved_fields)
  from d u show ?thesis by (rule conjI)
qed

text \<open>
  Instances below a viewport of two rows at offset 0, with three items. From selection
  1, down lands on 2 and asks for one scroll, up lands on 0 and asks for none. From
  selection 0, down lands on 1 and asks for none, up stays on 0 and asks for none.
\<close>

theorem scroll_request_condition_witness:
  "(\<exists>st'. key_down three_items_at_1 = Inr st' \<and> u_selected_index st' = Stored (Some 2) \<and>
      scrolls st' = [ScrollDown False]) \<and>
   (\<exists>st'. key_up three_items_at_1 = Inr st' \<and> u_selected_index st' = Stored (Some 0) \<and>
      scrolls st' = []) \<and>
   (\<exists>st'. key_down three_items_two_rows = Inr st' \<and> u_selected_index st' = Stored (Some 1) \<and>
      scrolls st' = []) \<and>
   (\<exists>st'. key_up three_items_two_rows = Inr st' \<and> u_selected_index st' = Stored (Some 0) \<and>
      scrolls st' = [])"
proof -
  have r: "0 < content_height two_rows" by code_simp
  have v: "content_height two_rows = 2" "scroll_y two_rows = 0" by code_simp+
  have 1: "u_items three_items_at_1 \<noteq> []" by code_simp
  have 2: "u_selected_index three_items_at_1 = Stored (Some 1)" by code_simp
  have 3: "parent three_items_at_1 = Some two_rows" by code_simp
  have 4: "int (length (u_items three_items_at_1)) = 3" "scrolls three_items_at_1 = []"
    by code_simp+
  have 5: "u_items three_items_two_rows \<noteq> []" by code_simp
  have 6: "u_selected_index three_items_two_rows = Stored (Some 0)" by code_simp
  have 7: "parent three_items_two_rows = Some two_rows" by code_simp
  have 8: "int (length (u_items three_items_two_rows)) = 3" "scrolls three_items_two_rows = []"
    by code_simp+
  from scroll_request_condition [OF 1 2 3 r]
  have a: "(\<exists>st'. key_down three_items_at_1 = Inr st' \<and> u_selected_index st' = Stored (Some 2) \<and>
      scrolls st' = [ScrollDown False]) \<and>
   (\<exists>st'. key_up three_items_at_1 = Inr st' \<and> u_selected_index st' = Stored (Some 0) \<and>
      scrolls st' = [])"
    unfolding 4 v by simp
  from scroll_request_condition [OF 5 6 7 r]
  have b: "(\<exists>st'. key_down three_items_two_rows = Inr st' \<and> u_selected_index st' = Stored (Some 1) \<and>
      scrolls st' = []) \<and>
   (\<exists>st'. key_up three_items_two_rows = Inr st' \<and> u_selected_index st' = Stored (Some 0) \<and>
      scrolls st' = [])"
    unfolding 8 v by simp
  from a b show ?thesis by simp
qed

text \<open>
  With five items, content height 5 and scroll offset 0, the \<open>key_down\<close> that moves
  the selection from 3 to 4 returns and asks for no scroll: \<open>4 mod 5\<close> is not 0.
\<close>

theorem select_next_to_4_no_scroll:
  "length (u_items five_items) = 5 \<and>
   parent five_items = Some \<lparr>content_height = 5, scroll_y = 0\<rparr> \<and>
   u_selected_index five_items = Stored (Some 3) \<and>
   raised (key_down five_items) = None \<and>
   u_selected_index (state_of (key_down five_items)) = Stored (Some 4) \<and>
   scrolls (state_of (key_down five_items)) = scrolls five_items"
  by code_simp

text \<open>
  C4 (amended). Below a viewport with content height 5 and scroll offset 0, a
  \<open>key_down\<close> that advances the selection to index 4 triggers no scroll-down request,
  and one that advances it to index 3 triggers none either; the \<open>key_down\<close> that
  advances the selection to index 5 (in a list of at least six items) triggers exactly
  one.
\<close>

theorem scroll_at_height_5:
  assumes "parent st = Some p" and "content_height p = 5" and "scroll_y p = 0"
    and "u_selected_index st = Stored (Some s)"
    and "2 \<le> s" and "s \<le> 4" and "s + 1 < int (length (u_items st))"
  shows "\<exists>st'. key_down st = Inr st' \<and> u_selected_index st' = Stored (Some (s + 1)) \<and>
           scrolls st' = scrolls st @ (if s + 1 = 5 then [ScrollDown False] else [])"
proof -
  have ne: "u_items st \<noteq> []" using assms(5,7) by auto
  have h: "content_height p \<noteq> 0" using assms(2) by simp
  have k: "max 0 (min (s + 1) (int (length (u_items st)) - 1)) = s + 1"
    using assms(5,7) by linarith
  have m: "((s + 1) mod 5 = 0) = (s + 1 = 5)" using assms(5,6) by presburger
  have sel: "u_selected_index (moved st (s + 1)) = Stored (Some (s + 1))"
    by (simp only: moved_fields k)
  have kd: "key_down st =
         Inr (if s + 1 = 5
              then (moved st (s + 1))\<lparr>scrolls := scrolls st @ [ScrollDown False]\<rparr>
              else moved st (s + 1))"
    using key_down_nonempty [OF ne assms(4) assms(1) h]
    by (simp only: k assms(2,3) m diff_0_right)
  show ?thesis
  proof (cases "s + 1 = 5")
    case True
    then show ?thesis using kd sel by simp
  next
    case False
    then show ?thesis using kd sel by (simp add: moved_fields(5))
  qed
qed

text \<open>
  Two instances: five items, from 3 to 4, no request; six items, from 4 to 5, one request.
\<close>

theorem scroll_at_height_5_witness:
  "(\<exists>st'. key_down five_items = Inr st' \<and> u_selected_index st' = Stored (Some 4) \<and>
      scrolls st' = scrolls five_items) \<and>
   (\<exists>st'. key_down six_items = Inr st' \<and> u_selected_index st' = Stored (Some 5) \<and>
      scrolls st' = scrolls six_items @ [ScrollDown False])"
proof -
  have r: "content_height five_rows = 5" "scroll_y five_rows = 0" by code_simp+
  have 1: "parent five_items = Some five_rows" by code_simp
  have 2: "u_selected_index five_items = Stored (Some 3)" by code_simp
  have 3: "3 + 1 < int (length (u_items five_items))" by code_simp
  have 4: "parent six_items = Some five_rows" by code_simp
  have 5: "u_selected_index six_items = Stored (Some 4)" by code_simp
  have 6: "4 + 1 < int (length (u_items six_items))" by code_simp
  from scroll_at_height_5 [OF 1 r 2 _ _ 3]
  have a: "\<exists>st'. key_down five_items = Inr st' \<and> u_selected_index st' = Stored (Some 4) \<and>
      scrolls st' = scrolls five_items"
    by simp
  from scroll_at_height_5 [OF 4 r 5 _ _ 6]
  have b: "\<exists>st'. key_down six_items = Inr st' \<and> u_selected_index st' = Stored (Some 5) \<and>
      scrolls st' = scrolls six_items @ [ScrollDown False]"
    by simp
  from a b show ?thesis by (rule conjI)
qed

subsection \<open>No wraparound\<close>

text \<open>
  C5. On a non-empty list of \<open>n\<close> items, whatever the widget has above it at each
  key press: from selection 0, after \<open>k\<close> calls of \<open>key_down\<close> the selection is
  \<open>min k (n - 1)\<close>, so \<open>n\<close> calls reach \<open>n - 1\<close> and every further call leaves
  it there; from selection \<open>n - 1\<close>, after \<open>k\<close> calls of \<open>key_up\<close> the selection
  is \<open>max (n - 1 - k) 0\<close>, so calls past 0 leave it at 0. Below a viewport that shows
  at least one row at every press, every one of the calls returns.
\<close>

theorem selection_saturates:
  assumes "u_items st \<noteq> []"
  shows "(u_selected_index st = Stored (Some 0) \<longrightarrow>
            u_selected_index (handle_all (presses KeyDown ps) st) =
              Stored (Some (min (int (length ps)) (int (length (u_items st)) - 1))) \<and>
            (list_all shown ps \<longrightarrow>
               run (presses KeyDown ps) st = Inr (handle_all (presses KeyDown ps) st))) \<and>
         (u_selected_index st = Stored (Some (int (length (u_items st)) - 1)) \<longrightarrow>
            u_selected_index (handle_all (presses KeyUp ps) st) =
              Stored (Some (max (int (length (u_items st)) - 1 - int (length ps)) 0)) \<and>
            (list_all shown ps \<longrightarrow>
               run (presses KeyUp ps) st = Inr (handle_all (presses KeyUp ps) st)))"
proof -
  have n: "0 \<le> int (length (u_items st)) - 1" using assms by (cases "u_items st") simp_all
  have d: "u_selected_index (handle_all (presses KeyDown ps) st) =
              Stored (Some (min (int (length ps)) (int (length (u_items st)) - 1)))"
    if s: "u_selected_index st = Stored (Some 0)"
    using handle_presses_down [OF assms s _ n, of ps] by simp
  have u: "u_selected_index (handle_all (presses KeyUp ps) st) =
              Stored (Some (max (int (length (u_items st)) - 1 - int (length ps)) 0))"
    if s: "u_selected_index st = Stored (Some (int (length (u_items st)) - 1))"
    using handle_presses_up [OF assms s n, of ps] by simp
  show ?thesis
    using d u run_presses_down [OF assms, of _ ps] run_presses_up [OF assms, of _ ps] by blast
qed

text \<open>
  An instance: three items; four presses down from 0 end at 2, three presses up from 2
  end at 0, also when one of the presses raises for want of a parent.
\<close>

theorem selection_saturates_witness:
  "u_selected_index (handle_all (presses KeyDown [Some five_rows, None, Some two_rows, Some five_rows])
       three_items) = Stored (Some 2) \<and>
   run (presses KeyDown [Some five_rows, Some two_rows, Some two_rows, Some five_rows]) three_items =
     Inr (handle_all (presses KeyDown [Some five_rows, Some two_rows, Some two_rows, Some five_rows])
            three_items) \<and>
   u_selected_index (handle_all (presses KeyUp [Some five_rows, None, Some two_rows]) three_items_at_2) =
     Stored (Some 0) \<and>
   run (presses KeyUp [Some five_rows, Some two_rows, Some two_rows]) three_items_at_2 =
     Inr (handle_all (presses KeyUp [Some five_rows, Some two_rows, Some two_rows]) three_items_at_2)"
proof -
  have 1: "u_items three_items \<noteq> []" by code_simp
  have 2: "u_selected_index three_items = Stored (Some 0)" by code_simp
  have 3: "list_all shown [Some five_rows, Some two_rows, Some two_rows, Some five_rows]"
    by code_simp
  have 4: "u_items three_items_at_2 \<noteq> []" by code_simp
  have 5: "u_selected_index three_items_at_2 =
             Stored (Some (int (length (u_items three_items_at_2)) - 1))"
    by code_simp
  have 6: "list_all shown [Some five_rows, Some two_rows, Some two_rows]" by code_simp
  have 7: "min (int (length [Some five_rows, None, Some two_rows, Some five_rows]))
             (int (length (u_items three_items)) - 1) = 2"
    by code_simp
  have 8: "max (int (length (u_items three_items_at_2)) - 1 -
                  int (length [Some five_rows, None, Some two_rows])) 0 = 0"
    by code_simp
  from selection_saturates [OF 1, of "[Some five_rows, None, Some two_rows, Some five_rows]"] 2 7
  have a: "u_selected_index (handle_all (presses KeyDown [Some five_rows, None, Some two_rows, Some five_rows])
       three_items) = Stored (Some 2)"
    by simp
  from selection_saturates [OF 1, of "[Some five_rows, Some two_rows, Some two_rows, Some five_rows]"] 2 3
  have b: "run (presses KeyDown [Some five_rows, Some two_rows, Some two_rows, Some five_rows]) three_items =
     Inr (handle_all (presses KeyDown [Some five_rows, Some two_rows, Some two_rows, Some five_rows])
            three_items)"
    by blast
  from selection_saturates [OF 4, of "[Some five_rows, None, Some two_rows]"] 5 8
  have c: "u_selected_index (handle_all (presses KeyUp [Some five_rows, None, Some two_rows]) three_items_at_2) =
     Stored (Some 0)"
    by simp
  from selection_saturates [OF 4, of "[Some five_rows, Some two_rows, Some two_rows]"] 5 6
  have d: "run (presses KeyUp [Some five_rows, Some two_rows, Some two_rows]) three_items_at_2 =
     Inr (handle_all (presses KeyUp [Some five_rows, Some two_rows, Some two_rows]) three_items_at_2)"
    by blast
  from a b c d show ?thesis by blast
qed

subsection \<open>The invariant\<close>

text \<open>
  C6. The mount handler establishes the invariant \<open>state_inv\<close> (the selection is an
  index in \<open>[0, count - 1]\<close> when the list is non-empty and \<open>None\<close> when it is
  empty; see \<open>state_inv_iff\<close>), and every event afterwards preserves it: \<open>add_items\<close>,
  the setter, \<open>key_down\<close>, \<open>key_up\<close>, a second mount and a change of the viewport,
  also when the handler raises.
\<close>

theorem invariant_preserved:
  "state_inv (state_of (on_mount st0)) \<and>
   (state_inv st \<longrightarrow> state_inv (state_of (step e st)))"
  by (simp add: on_mount_def state_inv_setter state_inv_step)

text \<open>An instance: mounting a new widget; a key pressed on the last of three items.\<close>

theorem invariant_preserved_witness:
  "state_inv (state_of (on_mount (init ProfileList))) \<and>
   state_inv three_items_at_2 \<and> state_inv (state_of (step KeyDown three_items_at_2))"
proof -
  have 1: "state_inv three_items_at_2" by code_simp
  from invariant_preserved [of "init ProfileList" three_items_at_2 KeyDown] 1
  show ?thesis by simp
qed

subsection \<open>Adding items\<close>

text \<open>
  C7. For every widget and every non-empty sequence of strings, \<open>add_items\<close> appends
  the strings to the end of the list in their order; and if the selection was \<open>None\<close>
  before, the call returns with the selection 0 and exactly one more \<open>ItemSelected\<close>
  notification, which carries the first item of the resulting list.
\<close>

theorem add_items_appends_and_selects_first:
  assumes "its \<noteq> []"
  shows "u_items (state_of (add_items its st)) = u_items st @ its \<and>
         (u_selected_index st = Stored None \<longrightarrow>
            add_items its st =
              Inr (st\<lparr>u_items := u_items st @ its,
                      u_selected_index := Stored (Some 0),
                      emitted := emitted st @ [ItemSelected (cls st) (hd (u_items st @ its))],
                      refreshes := Suc (refreshes st)\<rparr>))"
proof (cases "u_selected_index st")
  case Missing
  then show ?thesis by (simp add: add_items_def selected_index_def state_of_def)
next
  case (Stored sel)
  show ?thesis
  proof (cases sel)
    case None
    let ?st1 = "st\<lparr>u_items := u_items st @ its\<rparr>"
    have ne: "u_items ?st1 \<noteq> []" using assms by simp
    have a: "add_items its st = Inr (moved ?st1 0)"
      using Stored None by (simp add: add_items_def selected_index_def setter_moved [OF ne])
    have n: "1 \<le> int (length (u_items st @ its))" using assms by (cases its) simp_all
    have k: "max 0 (min 0 (int (length (u_items st @ its)) - 1)) = 0" using n by linarith
    have m: "moved ?st1 0 = st\<lparr>u_items := u_items st @ its,
                      u_selected_index := Stored (Some 0),
                      emitted := emitted st @ [ItemSelected (cls st) (hd (u_items st @ its))],
                      refreshes := Suc (refreshes st)\<rparr>"
      using ne k by (simp add: moved_def Let_def refresh_def emit_no_wait_def hd_conv_nth)
    show ?thesis using a m by (simp add: state_of_def)
  next
    case (Some i)
    then show ?thesis using Stored by (simp add: add_items_def selected_index_def state_of_def)
  qed
qed

text \<open>
  An instance: \<open>add_items(["a", "b", "c"])\<close> on the mounted empty widget selects 0
  and emits one notification, for \<open>a\<close>.
\<close>

theorem add_items_appends_and_selects_first_witness:
  "u_items (state_of (add_items [''a'', ''b'', ''c''] mounted_empty)) =
     u_items mounted_empty @ [''a'', ''b'', ''c''] \<and>
   add_items [''a'', ''b'', ''c''] mounted_empty =
     Inr (mounted_empty\<lparr>u_items := [''a'', ''b'', ''c''],
            u_selected_index := Stored (Some 0),
            emitted := [ItemSelected ItemControl ''a''],
            refreshes := 2\<rparr>)"
proof -
  have 1: "[''a'', ''b'', ''c''] \<noteq> []" by simp
  have 2: "u_selected_index mounted_empty = Stored None" by code_simp
  have 3: "u_items mounted_empty = []" by code_simp
  have 4: "emitted mounted_empty = []" by code_simp
  have 5: "refreshes mounted_empty = 1" by code_simp
  have 6: "cls mounted_empty = ItemControl" by code_simp
  from add_items_appends_and_selects_first [OF 1, of mounted_empty] 2 3 4 5 6
  show ?thesis by (simp add: state_of_def)
qed

text \<open>
  C8. In every state of a widget, \<open>add_items([])\<close> leaves the item list and the
  selection unchanged and emits no notification (nor does it ask for a scroll); once the
  selection attribute exists the call returns.
\<close>

theorem add_no_items_changes_nothing:
  assumes "reachable st"
  shows "u_items (state_of (add_items [] st)) = u_items st \<and>
         u_selected_index (state_of (add_items [] st)) = u_selected_index st \<and>
         emitted (state_of (add_items [] st)) = emitted st \<and>
         scrolls (state_of (add_items [] st)) = scrolls st \<and>
         (u_selected_index st \<noteq> Missing \<longrightarrow> raised (add_items [] st) = None)"
proof (cases "u_selected_index st")
  case Missing
  then show ?thesis by (simp add: add_items_def selected_index_def state_of_def)
next
  case (Stored sel)
  then have inv: "state_inv st" using reachable_cases [OF assms] by simp
  show ?thesis
  proof (cases sel)
    case None
    then have e: "u_items st = []" using inv Stored by (simp add: state_inv_def)
    have "add_items [] st =
            Inr (refresh (st\<lparr>u_items := u_items st @ [], u_selected_index := Stored None\<rparr>))"
      using Stored None e by (simp add: add_items_def selected_index_def setter_empty)
    then show ?thesis using Stored None by (simp add: state_of_def raised_def refresh_def)
  next
    case (Some i)
    then show ?thesis using Stored
      by (simp add: add_items_def selected_index_def state_of_def raised_def)
  qed
qed

text \<open>An instance: the widget with three items and the last one selected.\<close>

theorem add_no_items_changes_nothing_witness:
  "reachable three_items_at_2 \<and>
   u_items (state_of (add_items [] three_items_at_2)) = u_items three_items_at_2 \<and>
   u_selected_index (state_of (add_items [] three_items_at_2)) = u_selected_index three_items_at_2 \<and>
   emitted (state_of (add_items [] three_items_at_2)) = emitted three_items_at_2 \<and>
   scrolls (state_of (add_items [] three_items_at_2)) = scrolls three_items_at_2 \<and>
   raised (add_items [] three_items_at_2) = None"
proof -
  have 1: "reachable three_items_at_2"
    unfolding three_items_at_2_def by (rule reachable_run) (rule constructed)
  have 2: "u_selected_index three_items_at_2 \<noteq> Missing" by code_simp
  from add_no_items_changes_nothing [OF 1] 1 2 show ?thesis by simp
qed

subsection \<open>The subclasses\<close>

text \<open>
  C9. \<open>EnvList\<close> and \<open>ProfileList\<close> behave as \<open>ItemControl\<close> and as each other.
  A widget of class \<open>c\<close> is the widget of any other class with its messages retagged
  (\<open>retag c\<close>), from the constructor on; for every sequence of events the run of the
  one is the run of the other retagged: the same exception or none, the same item list,
  selection, refresh and scroll requests, and the same notifications up to their class.
  Rendering and the content height are the same.
\<close>

theorem subclasses_differ_in_tag_only:
  "init c = retag c (init c') \<and>
   run es (retag c st) = retag_result c (run es st) \<and>
   render (retag c st) = render st \<and>
   get_content_height (retag c st) h = get_content_height st h"
  by (simp only: retag_run retag_render retag_get_content_height retag_init simp_thms)

subsection \<open>Before the mount\<close>

text \<open>
  C10. On a widget that has just been constructed, reading \<open>selected_index\<close> raises
  \<open>AttributeError\<close>: the constructor does not create \<open>_selected_index\<close>.
  So \<open>add_items\<close> on it appends the items and then raises \<open>AttributeError\<close>, and
  the selection is not initialised.
\<close>

theorem unmounted_selection_raises:
  "selected_index (init c) = Inl AttributeError \<and>
   add_items its (init c) = Inl (AttributeError, (init c)\<lparr>u_items := its\<rparr>) \<and>
   u_selected_index (state_of (add_items its (init c))) = Missing"
  by (simp add: selected_index_def add_items_def init_def state_of_def)

end
